theory Spec2Isabelle
  imports Main "HOL-Library.Sublist"
begin

section \<open>Data model of \<^verbatim>\<open>src/Value.js\<close>\<close>

text \<open>
  A key path is an array of segments; a segment is a field name (a JavaScript string) or
  an index (a non-negative number).
\<close>

datatype segment = Name string | Index nat

type_synonym keyPath = "segment list"

text \<open>
  An error record is a JavaScript object \<^verbatim>\<open>{field: string, ...other attributes}\<close>.
  \<^verbatim>\<open>removeError\<close> looks a record up with \<^verbatim>\<open>Array.prototype.indexOf\<close>, which compares
  objects by identity, so an object is represented by its address \<open>ref\<close> together with its
  contents. The program never writes to an error record after creating it, hence the
  contents can travel with the address. \<open>attrs\<close> stands for all properties but \<open>field\<close>.
  A JavaScript string is a sequence of code units, here a list of characters.
\<close>

record 'a error =
  ref :: nat
  field :: string
  attrs :: 'a

text \<open>
  The fields that the constructor of \<^verbatim>\<open>ValueRoot\<close> stores. \<^verbatim>\<open>keyPath\<close> is fixed to the
  empty array and \<^verbatim>\<open>parent\<close> to null. \<open>addr\<close> is the identity of the instance.
  \<^verbatim>\<open>value\<close> is named \<open>value_doc\<close>, \<^verbatim>\<open>_errorList\<close> and \<^verbatim>\<open>_externalErrorList\<close> are named
  \<open>priv_errorList\<close> and \<open>priv_externalErrorList\<close>.
  \<open>'s\<close> is the type of schemas, \<open>'d\<close> of documents, \<open>'p\<close> of the values of params,
  \<open>'c\<close> of callbacks, \<open>'x\<close> of thrown exceptions. The validator is a function that returns
  an error list or throws.
\<close>

record ('s, 'd, 'p, 'a, 'c, 'x) ValueRoot_obj =
  addr :: nat
  schema :: 's
  value_doc :: 'd
  onChange :: 'c
  params :: "string \<rightharpoonup> 'p"
  priv_errorList :: "'a error list"
  priv_externalErrorList :: "'a error list"
  validate :: "'s \<Rightarrow> 'd \<Rightarrow> 'x + 'a error list"

text \<open>
  A Value is an instance of \<^verbatim>\<open>ValueRoot\<close> or of \<^verbatim>\<open>ValueBranch\<close>; the latter holds its own
  address, its root and its key path. The root is immutable, so the branch holds it by
  value.
\<close>

datatype ('s, 'd, 'p, 'a, 'c, 'x) Value =
    ValueRoot "('s, 'd, 'p, 'a, 'c, 'x) ValueRoot_obj"
  | ValueBranch nat "('s, 'd, 'p, 'a, 'c, 'x) ValueRoot_obj" keyPath

text \<open>The getter \<^verbatim>\<open>root\<close> (\<^verbatim>\<open>return this\<close> on a root) and the field \<^verbatim>\<open>keyPath\<close>.\<close>

fun root :: "('s, 'd, 'p, 'a, 'c, 'x) Value \<Rightarrow> ('s, 'd, 'p, 'a, 'c, 'x) ValueRoot_obj" where
  "root (ValueRoot r) = r"
| "root (ValueBranch a r kp) = r"

fun keyPath :: "('s, 'd, 'p, 'a, 'c, 'x) Value \<Rightarrow> keyPath" where
  "keyPath (ValueRoot r) = []"
| "keyPath (ValueBranch a r kp) = kp"

text \<open>
  The state of the module and of its surroundings: the module variable
  \<^verbatim>\<open>suppressUpdateContextual\<close>, the next free object address, the trace of the calls
  of \<^verbatim>\<open>onChange\<close> callbacks made so far (callee, first argument, second argument), oldest
  first, and the outcome of the callbacks. A callback is opaque: a call of it is recorded,
  and it returns (\<open>None\<close>) or throws an exception (\<open>Some\<close>), as \<open>onChange_throws\<close> says
  for the callee and the two arguments.
\<close>

record ('s, 'd, 'p, 'a, 'c, 'x) world =
  suppressUpdateContextual :: bool
  next_addr :: nat
  onChange_calls :: "('c \<times> ('s, 'd, 'p, 'a, 'c, 'x) ValueRoot_obj \<times> keyPath) list"
  onChange_throws :: "'c \<Rightarrow> ('s, 'd, 'p, 'a, 'c, 'x) ValueRoot_obj \<Rightarrow> keyPath \<Rightarrow> 'x option"

section \<open>The suppression scope\<close>

text \<open>
  \<^verbatim>\<open>suppressUpdate(tx)\<close>: the callback runs on the world and returns normally (\<open>Inr\<close>) or
  throws (\<open>Inl\<close>); the \<^verbatim>\<open>finally\<close> block runs on both paths, then the result or the
  exception goes to the caller.
\<close>

definition suppressUpdate ::
  "(('s, 'd, 'p, 'a, 'c, 'x) world \<Rightarrow> ('x + 'r) \<times> ('s, 'd, 'p, 'a, 'c, 'x) world) \<Rightarrow>
   ('s, 'd, 'p, 'a, 'c, 'x) world \<Rightarrow> ('x + 'r) \<times> ('s, 'd, 'p, 'a, 'c, 'x) world" where
  "suppressUpdate tx w =
     (let w1 = w\<lparr>suppressUpdateContextual := True\<rparr>;
          (result, w2) = tx w1
      in (result, w2\<lparr>suppressUpdateContextual := False\<rparr>))"

section \<open>Error filters\<close>

text \<open>
  \<^verbatim>\<open>String(n)\<close> for a non-negative integer below \<open>10^21\<close>: its decimal digits. (From
  \<open>10^21\<close> on JavaScript prints a number in exponent form; no array has such an index.)
\<close>

function toStringNat :: "nat \<Rightarrow> string" where
  "toStringNat n =
     (if n < 10 then [char_of (48 + n)]
      else toStringNat (n div 10) @ [char_of (48 + n mod 10)])"
  by pat_completeness auto
termination
  by (relation "measure id") auto

declare toStringNat.simps [simp del]

fun toString :: "segment \<Rightarrow> string" where
  "toString (Name s) = s"
| "toString (Index n) = toStringNat n"

text \<open>\<^verbatim>\<open>Array.prototype.join\<close> on an array of strings.\<close>

fun join :: "string list \<Rightarrow> string \<Rightarrow> string" where
  "join [] sep = []"
| "join [x] sep = x"
| "join (x # y # ys) sep = x @ sep @ join (y # ys) sep"

text \<open>The expression \<^verbatim>\<open>['data'].concat(keyPath).join('.')\<close>, which the source writes four times.\<close>

definition dataField :: "keyPath \<Rightarrow> string" where
  "dataField kp = join (''data'' # map toString kp) ''.''"

text \<open>\<^verbatim>\<open>s[i]\<close> on a string: \<^verbatim>\<open>undefined\<close> (here \<open>None\<close>) out of range.\<close>

definition charAt :: "string \<Rightarrow> nat \<Rightarrow> char option" where
  "charAt s i = (if i < length s then Some (s ! i) else None)"

definition filterErrorListByKeyPath :: "'a error list \<Rightarrow> keyPath \<Rightarrow> 'a error list" where
  "filterErrorListByKeyPath errorList kp =
     (let fld = dataField kp
      in filter (\<lambda>error. field error = fld) errorList)"

definition filterErrorListByKeyPathPrefix :: "'a error list \<Rightarrow> keyPath \<Rightarrow> 'a error list" where
  "filterErrorListByKeyPathPrefix errorList kp =
     (if length kp = 0 then errorList
      else
        (let fld = dataField kp;
             len = length fld
         in filter (\<lambda>error.
              field error = fld \<or>
              take len (field error) = fld \<and> charAt (field error) len = Some CHR ''.'')
            errorList))"

section \<open>The class \<^verbatim>\<open>Value\<close>\<close>

text \<open>
  Modelled from the spec: \<^verbatim>\<open>makeKeyPath\<close> is imported from \<^verbatim>\<open>./keyPath\<close>, which is not among
  the sources. The spec says that it normalizes a key into the canonical ordered sequence
  of segments; a key that is already an ordered sequence of segments is its own canonical
  form. Only keys of that form are modelled.
\<close>

definition makeKeyPath :: "keyPath \<Rightarrow> keyPath" where
  "makeKeyPath key = key"

text \<open>\<^verbatim>\<open>new ValueBranch(root, keyPath)\<close> and \<^verbatim>\<open>new ValueRoot({...})\<close> allocate an instance.\<close>

definition new_ValueBranch ::
  "('s, 'd, 'p, 'a, 'c, 'x) ValueRoot_obj \<Rightarrow> keyPath \<Rightarrow> ('s, 'd, 'p, 'a, 'c, 'x) world \<Rightarrow>
   ('s, 'd, 'p, 'a, 'c, 'x) Value \<times> ('s, 'd, 'p, 'a, 'c, 'x) world" where
  "new_ValueBranch r kp w =
     (ValueBranch (next_addr w) r kp, w\<lparr>next_addr := Suc (next_addr w)\<rparr>)"

definition select ::
  "('s, 'd, 'p, 'a, 'c, 'x) Value \<Rightarrow> keyPath \<Rightarrow> ('s, 'd, 'p, 'a, 'c, 'x) world \<Rightarrow>
   ('s, 'd, 'p, 'a, 'c, 'x) Value \<times> ('s, 'd, 'p, 'a, 'c, 'x) world" where
  "select this key w =
     (let kp = makeKeyPath key
      in if length kp = 0 then (this, w)
         else new_ValueBranch (root this) (keyPath this @ kp) w)"

text \<open>
  The getters \<^verbatim>\<open>errorList\<close> and \<^verbatim>\<open>completeErrorList\<close>. They are memoized per instance; the
  instance is immutable, so the cached value is the computed one.
\<close>

definition errorList :: "('s, 'd, 'p, 'a, 'c, 'x) Value \<Rightarrow> 'a error list" where
  "errorList this =
     (let validateErrorList = filterErrorListByKeyPath (priv_errorList (root this)) (keyPath this);
          externalErrorList =
            filterErrorListByKeyPath (priv_externalErrorList (root this)) (keyPath this)
      in validateErrorList @ externalErrorList)"

definition completeErrorList :: "('s, 'd, 'p, 'a, 'c, 'x) Value \<Rightarrow> 'a error list" where
  "completeErrorList this =
     (let validateErrorList =
            filterErrorListByKeyPathPrefix (priv_errorList (root this)) (keyPath this);
          externalErrorList =
            filterErrorListByKeyPathPrefix (priv_externalErrorList (root this)) (keyPath this)
      in validateErrorList @ externalErrorList)"

text \<open>
  The object literal that the constructor of \<^verbatim>\<open>ValueRoot\<close> takes, and the partial object
  that \<^verbatim>\<open>createRoot\<close> takes: a property is present (\<open>Some\<close>) or absent (\<open>None\<close>).
\<close>

record ('s, 'd, 'p, 'a, 'c, 'x) root_values =
  v_schema :: 's
  v_value :: 'd
  v_onChange :: 'c
  v_params :: "string \<rightharpoonup> 'p"
  v_errorList :: "'a error list"
  v_externalErrorList :: "'a error list"
  v_validate :: "'s \<Rightarrow> 'd \<Rightarrow> 'x + 'a error list"

record ('s, 'd, 'p, 'a, 'c, 'x) partial =
  u_schema :: "'s option"
  u_value :: "'d option"
  u_onChange :: "'c option"
  u_params :: "(string \<rightharpoonup> 'p) option"
  u_errorList :: "'a error list option"
  u_externalErrorList :: "'a error list option"
  u_validate :: "('s \<Rightarrow> 'd \<Rightarrow> 'x + 'a error list) option"

definition no_update :: "('s, 'd, 'p, 'a, 'c, 'x) partial" where
  "no_update =
     \<lparr>u_schema = None, u_value = None, u_onChange = None, u_params = None,
      u_errorList = None, u_externalErrorList = None, u_validate = None\<rparr>"

text \<open>The spread \<^verbatim>\<open>{...values, ...update}\<close>: a property of \<open>update\<close> wins where present.\<close>

definition spread ::
  "('s, 'd, 'p, 'a, 'c, 'x) root_values \<Rightarrow> ('s, 'd, 'p, 'a, 'c, 'x) partial \<Rightarrow>
   ('s, 'd, 'p, 'a, 'c, 'x) root_values" where
  "spread vals upd =
     \<lparr>v_schema = (case u_schema upd of Some x \<Rightarrow> x | None \<Rightarrow> v_schema vals),
      v_value = (case u_value upd of Some x \<Rightarrow> x | None \<Rightarrow> v_value vals),
      v_onChange = (case u_onChange upd of Some x \<Rightarrow> x | None \<Rightarrow> v_onChange vals),
      v_params = (case u_params upd of Some x \<Rightarrow> x | None \<Rightarrow> v_params vals),
      v_errorList = (case u_errorList upd of Some x \<Rightarrow> x | None \<Rightarrow> v_errorList vals),
      v_externalErrorList =
        (case u_externalErrorList upd of Some x \<Rightarrow> x | None \<Rightarrow> v_externalErrorList vals),
      v_validate = (case u_validate upd of Some x \<Rightarrow> x | None \<Rightarrow> v_validate vals)\<rparr>"

definition new_ValueRoot ::
  "('s, 'd, 'p, 'a, 'c, 'x) root_values \<Rightarrow> ('s, 'd, 'p, 'a, 'c, 'x) world \<Rightarrow>
   ('s, 'd, 'p, 'a, 'c, 'x) ValueRoot_obj \<times> ('s, 'd, 'p, 'a, 'c, 'x) world" where
  "new_ValueRoot vals w =
     (\<lparr>addr = next_addr w,
       schema = v_schema vals,
       value_doc = v_value vals,
       onChange = v_onChange vals,
       params = v_params vals,
       priv_errorList = v_errorList vals,
       priv_externalErrorList = v_externalErrorList vals,
       validate = v_validate vals\<rparr>,
      w\<lparr>next_addr := Suc (next_addr w)\<rparr>)"

definition createRoot ::
  "('s, 'd, 'p, 'a, 'c, 'x) Value \<Rightarrow> ('s, 'd, 'p, 'a, 'c, 'x) partial \<Rightarrow>
   ('s, 'd, 'p, 'a, 'c, 'x) world \<Rightarrow>
   ('s, 'd, 'p, 'a, 'c, 'x) ValueRoot_obj \<times> ('s, 'd, 'p, 'a, 'c, 'x) world" where
  "createRoot this upd w =
     (let vals =
        \<lparr>v_schema = schema (root this),
         v_value = value_doc (root this),
         v_onChange = onChange (root this),
         v_params = params (root this),
         v_errorList = priv_errorList (root this),
         v_externalErrorList = priv_externalErrorList (root this),
         v_validate = validate (root this)\<rparr>
      in new_ValueRoot (spread vals upd) w)"

text \<open>
  The call \<^verbatim>\<open>cb(nextRoot, keyPath)\<close> of a callback: one more entry of the trace, and the
  callback returns or throws. The methods do not guard the call, so an exception of the
  callback leaves the method.
\<close>

definition call_onChange ::
  "'c \<Rightarrow> ('s, 'd, 'p, 'a, 'c, 'x) ValueRoot_obj \<Rightarrow> keyPath \<Rightarrow>
   ('s, 'd, 'p, 'a, 'c, 'x) world \<Rightarrow> ('x + unit) \<times> ('s, 'd, 'p, 'a, 'c, 'x) world" where
  "call_onChange cb nextRoot kp w =
     ((case onChange_throws w cb nextRoot kp of None \<Rightarrow> Inr () | Some exn \<Rightarrow> Inl exn),
      w\<lparr>onChange_calls := onChange_calls w @ [(cb, nextRoot, kp)]\<rparr>)"

text \<open>
  \<^verbatim>\<open>updateParams(params, suppressUpdate)\<close>. The spread of two params objects is the
  right-biased union of the maps.
\<close>

definition updateParams ::
  "('s, 'd, 'p, 'a, 'c, 'x) Value \<Rightarrow> (string \<rightharpoonup> 'p) \<Rightarrow> bool \<Rightarrow>
   ('s, 'd, 'p, 'a, 'c, 'x) world \<Rightarrow>
   ('x + ('s, 'd, 'p, 'a, 'c, 'x) Value) \<times> ('s, 'd, 'p, 'a, 'c, 'x) world" where
  "updateParams this ps suppress w =
     (let ps' = params (root this) ++ ps;
          (nextRoot, w1) = createRoot this (no_update\<lparr>u_params := Some ps'\<rparr>) w;
          (called, w2) =
            (if \<not> suppress \<and> \<not> suppressUpdateContextual w1
             then call_onChange (onChange (root this)) nextRoot (keyPath this) w1
             else (Inr (), w1))
      in case called of
           Inl exn \<Rightarrow> (Inl exn, w2)
         | Inr u \<Rightarrow> (let (res, w3) = select (ValueRoot nextRoot) (keyPath this) w2
                     in (Inr res, w3)))"

text \<open>
  \<^verbatim>\<open>update(valueUpdate, suppressUpdate)\<close>. The function \<^verbatim>\<open>update\<close> imported from
  \<^verbatim>\<open>./update\<close> is not among the sources: it is the parameter \<open>upd\<close>, a function of the
  document, the key path, the new value and the schema that returns a document or throws.
  An exception of \<open>upd\<close>, of the validator or of the callback leaves the method at once.
\<close>

definition update ::
  "('d \<Rightarrow> keyPath \<Rightarrow> 'd \<Rightarrow> 's \<Rightarrow> 'x + 'd) \<Rightarrow>
   ('s, 'd, 'p, 'a, 'c, 'x) Value \<Rightarrow> 'd \<Rightarrow> bool \<Rightarrow>
   ('s, 'd, 'p, 'a, 'c, 'x) world \<Rightarrow>
   ('x + ('s, 'd, 'p, 'a, 'c, 'x) Value) \<times> ('s, 'd, 'p, 'a, 'c, 'x) world" where
  "update upd this valueUpdate suppress w =
     (case (if length (keyPath this) = 0 then Inr valueUpdate
            else upd (value_doc (root this)) (keyPath this) valueUpdate (schema (root this))) of
        Inl exn \<Rightarrow> (Inl exn, w)
      | Inr val \<Rightarrow>
          (case validate (root this) (schema (root this)) val of
             Inl exn \<Rightarrow> (Inl exn, w)
           | Inr errs \<Rightarrow>
               (let (nextRoot, w1) =
                      createRoot this (no_update\<lparr>u_value := Some val, u_errorList := Some errs\<rparr>) w;
                    (called, w2) =
                      (if \<not> suppress \<and> \<not> suppressUpdateContextual w1
                       then call_onChange (onChange (root this)) nextRoot (keyPath this) w1
                       else (Inr (), w1))
                in case called of
                     Inl exn \<Rightarrow> (Inl exn, w2)
                   | Inr u \<Rightarrow> (let (res, w3) = select (ValueRoot nextRoot) (keyPath this) w2
                               in (Inr res, w3)))))"

text \<open>The object literal \<^verbatim>\<open>{...error, field}\<close>: a new object, \<open>field\<close> overwritten.\<close>

definition stamp ::
  "'a error \<Rightarrow> string \<Rightarrow> ('s, 'd, 'p, 'a, 'c, 'x) world \<Rightarrow>
   'a error \<times> ('s, 'd, 'p, 'a, 'c, 'x) world" where
  "stamp error fld w =
     (\<lparr>ref = next_addr w, field = fld, attrs = attrs error\<rparr>,
      w\<lparr>next_addr := Suc (next_addr w)\<rparr>)"

text \<open>\<^verbatim>\<open>error.map(error => ({...error, field}))\<close>, first element first.\<close>

fun stamp_each ::
  "'a error list \<Rightarrow> string \<Rightarrow> ('s, 'd, 'p, 'a, 'c, 'x) world \<Rightarrow>
   'a error list \<times> ('s, 'd, 'p, 'a, 'c, 'x) world" where
  "stamp_each [] fld w = ([], w)"
| "stamp_each (e # es) fld w =
     (let (e', w1) = stamp e fld w;
          (es', w2) = stamp_each es fld w1
      in (e' # es', w2))"

text \<open>The argument of \<^verbatim>\<open>updateError\<close>: \<^verbatim>\<open>Array.isArray(error)\<close> holds (\<open>Many\<close>) or not.\<close>

datatype 'a error_arg = One "'a error" | Many "'a error list"

definition updateError ::
  "('s, 'd, 'p, 'a, 'c, 'x) Value \<Rightarrow> 'a error_arg \<Rightarrow> bool \<Rightarrow>
   ('s, 'd, 'p, 'a, 'c, 'x) world \<Rightarrow>
   ('x + ('s, 'd, 'p, 'a, 'c, 'x) Value) \<times> ('s, 'd, 'p, 'a, 'c, 'x) world" where
  "updateError this error suppress w =
     (let fld = dataField (keyPath this);
          (externalErrorList, w0) =
            (case error of
               Many errors \<Rightarrow> stamp_each errors fld w
             | One e \<Rightarrow> (let (e', w') = stamp e fld w in ([e'], w')));
          (nextRoot, w1) =
            createRoot this (no_update\<lparr>u_externalErrorList := Some externalErrorList\<rparr>) w0;
          (called, w2) =
            (if \<not> suppress \<and> \<not> suppressUpdateContextual w1
             then call_onChange (onChange (root this)) nextRoot (keyPath this) w1
             else (Inr (), w1))
      in case called of
           Inl exn \<Rightarrow> (Inl exn, w2)
         | Inr u \<Rightarrow> (let (res, w3) = select (ValueRoot nextRoot) (keyPath this) w2
                     in (Inr res, w3)))"

definition addError ::
  "('s, 'd, 'p, 'a, 'c, 'x) Value \<Rightarrow> 'a error \<Rightarrow> bool \<Rightarrow>
   ('s, 'd, 'p, 'a, 'c, 'x) world \<Rightarrow>
   ('x + ('s, 'd, 'p, 'a, 'c, 'x) Value) \<times> ('s, 'd, 'p, 'a, 'c, 'x) world" where
  "addError this error suppress w =
     (let (error', w0) = stamp error (dataField (keyPath this)) w;
          externalErrorList = priv_externalErrorList (root this) @ [error'];
          (nextRoot, w1) =
            createRoot this (no_update\<lparr>u_externalErrorList := Some externalErrorList\<rparr>) w0;
          (called, w2) =
            (if \<not> suppress \<and> \<not> suppressUpdateContextual w1
             then call_onChange (onChange (root this)) nextRoot (keyPath this) w1
             else (Inr (), w1))
      in case called of
           Inl exn \<Rightarrow> (Inl exn, w2)
         | Inr u \<Rightarrow> (let (res, w3) = select (ValueRoot nextRoot) (keyPath this) w2
                     in (Inr res, w3)))"

text \<open>
  \<^verbatim>\<open>Array.prototype.indexOf\<close> on an array of objects: the index of the first element that
  is the same object as the argument, or \<open>-1\<close>.
\<close>

fun indexOf_from :: "'a error list \<Rightarrow> 'a error \<Rightarrow> int \<Rightarrow> int" where
  "indexOf_from [] e k = - 1"
| "indexOf_from (x # xs) e k = (if ref x = ref e then k else indexOf_from xs e (k + 1))"

definition indexOf :: "'a error list \<Rightarrow> 'a error \<Rightarrow> int" where
  "indexOf xs e = indexOf_from xs e 0"

text \<open>\<^verbatim>\<open>xs.splice(idx, 1)\<close> on the copy \<^verbatim>\<open>xs.slice(0)\<close>, for an index in range.\<close>

definition splice1 :: "'b list \<Rightarrow> nat \<Rightarrow> 'b list" where
  "splice1 xs i = take i xs @ drop (Suc i) xs"

definition removeError ::
  "('s, 'd, 'p, 'a, 'c, 'x) Value \<Rightarrow> 'a error \<Rightarrow> bool \<Rightarrow>
   ('s, 'd, 'p, 'a, 'c, 'x) world \<Rightarrow>
   ('x + ('s, 'd, 'p, 'a, 'c, 'x) Value) \<times> ('s, 'd, 'p, 'a, 'c, 'x) world" where
  "removeError this error suppress w =
     (let idx = indexOf (priv_externalErrorList (root this)) error
      in if idx > - 1 then
           (let externalErrorList = splice1 (priv_externalErrorList (root this)) (nat idx);
                (nextRoot, w1) =
                  createRoot this (no_update\<lparr>u_externalErrorList := Some externalErrorList\<rparr>) w;
                (called, w2) =
                  (if \<not> suppress \<and> \<not> suppressUpdateContextual w1
                   then call_onChange (onChange (root this)) nextRoot (keyPath this) w1
                   else (Inr (), w1))
            in case called of
                 Inl exn \<Rightarrow> (Inl exn, w2)
               | Inr u \<Rightarrow> (let (res, w3) = select (ValueRoot nextRoot) (keyPath this) w2
                           in (Inr res, w3)))
         else (Inr this, w))"

section \<open>The class \<^verbatim>\<open>ValueRoot\<close>\<close>

text \<open>\<^verbatim>\<open>setSchema(schema)\<close>, a method of roots only. An exception of the validator leaves it.\<close>

definition setSchema ::
  "('s, 'd, 'p, 'a, 'c, 'x) ValueRoot_obj \<Rightarrow> 's \<Rightarrow> ('s, 'd, 'p, 'a, 'c, 'x) world \<Rightarrow>
   ('x + ('s, 'd, 'p, 'a, 'c, 'x) Value) \<times> ('s, 'd, 'p, 'a, 'c, 'x) world" where
  "setSchema this sch w =
     (case validate this sch (value_doc this) of
        Inl exn \<Rightarrow> (Inl exn, w)
      | Inr errs \<Rightarrow>
          (let (nextRoot, w1) =
                 createRoot (ValueRoot this) (no_update\<lparr>u_schema := Some sch, u_errorList := Some errs\<rparr>) w
           in (Inr (ValueRoot nextRoot), w1)))"

section \<open>Notions used in the statements\<close>

text \<open>
  The field string of a key path in the words of the specification: \<^verbatim>\<open>"data"\<close>, then for
  every segment a dot and the segment; \<^verbatim>\<open>"data"\<close> alone for the empty key path.
\<close>

definition exactField :: "keyPath \<Rightarrow> string" where
  "exactField kp = ''data'' @ concat (map (\<lambda>s. ''.'' @ toString s) kp)"

text \<open>The structural content of an error record: all of it but its identity.\<close>

definition content :: "'a error \<Rightarrow> string \<times> 'a" where
  "content e = (field e, attrs e)"

text \<open>
  The common tail of the state-producing methods, written as one expression: with the new
  root \<open>nextRoot\<close> in hand and the world \<open>w1\<close> after its allocation, the callback is called
  unless suppressed; when it throws, the exception is the result; otherwise the key path
  of the receiver is selected on the new root.
\<close>

definition notify_reselect ::
  "('s, 'd, 'p, 'a, 'c, 'x) Value \<Rightarrow> ('s, 'd, 'p, 'a, 'c, 'x) ValueRoot_obj \<Rightarrow> bool \<Rightarrow>
   ('s, 'd, 'p, 'a, 'c, 'x) world \<Rightarrow>
   ('x + ('s, 'd, 'p, 'a, 'c, 'x) Value) \<times> ('s, 'd, 'p, 'a, 'c, 'x) world" where
  "notify_reselect v nextRoot s w1 =
     (let notified = (\<not> s \<and> \<not> suppressUpdateContextual w1);
          thrown = (if notified
                    then onChange_throws w1 (onChange (root v)) nextRoot (keyPath v)
                    else None);
          calls = (if notified
                   then onChange_calls w1 @ [(onChange (root v), nextRoot, keyPath v)]
                   else onChange_calls w1)
      in case thrown of
           Some exn \<Rightarrow> (Inl exn, w1\<lparr>onChange_calls := calls\<rparr>)
         | None \<Rightarrow>
             (Inr (if keyPath v = [] then ValueRoot nextRoot
                   else ValueBranch (next_addr w1) nextRoot (keyPath v)),
              w1\<lparr>next_addr := (if keyPath v = [] then next_addr w1 else Suc (next_addr w1)),
                 onChange_calls := calls\<rparr>))"

text \<open>
  The run \<open>R\<close> (result and final world) of a method called on the Value \<open>v\<close> with the
  argument \<open>s\<close> for \<^verbatim>\<open>suppressUpdate\<close> in the world \<open>w\<close> produces the root \<open>nextRoot\<close>: unless
  suppressed, the callback of the root of \<open>v\<close> has been called once more, with \<open>nextRoot\<close>
  and the key path of \<open>v\<close>; the method has returned a Value on \<open>nextRoot\<close> at the key path
  of \<open>v\<close>, which it does when the call is suppressed or the callback returns, or it has
  thrown the exception that the callback has thrown.
\<close>

definition run_produces ::
  "('s, 'd, 'p, 'a, 'c, 'x) Value \<Rightarrow> bool \<Rightarrow> ('s, 'd, 'p, 'a, 'c, 'x) world \<Rightarrow>
   ('x + ('s, 'd, 'p, 'a, 'c, 'x) Value) \<times> ('s, 'd, 'p, 'a, 'c, 'x) world \<Rightarrow>
   ('s, 'd, 'p, 'a, 'c, 'x) ValueRoot_obj \<Rightarrow> bool" where
  "run_produces v s w R nextRoot =
     (onChange_calls (snd R) =
        (if \<not> s \<and> \<not> suppressUpdateContextual w
         then onChange_calls w @ [(onChange (root v), nextRoot, keyPath v)]
         else onChange_calls w) \<and>
      (case fst R of
         Inr v' \<Rightarrow>
           root v' = nextRoot \<and> keyPath v' = keyPath v \<and>
           (s \<or> suppressUpdateContextual w \<or>
            onChange_throws w (onChange (root v)) nextRoot (keyPath v) = None)
       | Inl exn \<Rightarrow>
           \<not> s \<and> \<not> suppressUpdateContextual w \<and>
           onChange_throws w (onChange (root v)) nextRoot (keyPath v) = Some exn))"

text \<open>
  The run \<open>R\<close> of a method called without suppression on \<open>v\<close> in the world \<open>w\<close> has called
  the callback exactly once: it produces a root at a fresh address, and the trace has grown
  by the one call of the callback of the root of \<open>v\<close> with that root and the key path of \<open>v\<close>.
\<close>

definition notified_once ::
  "('s, 'd, 'p, 'a, 'c, 'x) Value \<Rightarrow> ('s, 'd, 'p, 'a, 'c, 'x) world \<Rightarrow>
   ('x + ('s, 'd, 'p, 'a, 'c, 'x) Value) \<times> ('s, 'd, 'p, 'a, 'c, 'x) world \<Rightarrow> bool" where
  "notified_once v w R =
     (\<exists>nextRoot.
        run_produces v False w R nextRoot \<and>
        onChange_calls (snd R) = onChange_calls w @ [(onChange (root v), nextRoot, keyPath v)] \<and>
        next_addr w \<le> addr nextRoot)"

text \<open>
  Suppression only silences an operation \<open>op\<close> (a function of the per-call argument
  \<^verbatim>\<open>suppressUpdate\<close> and of the world) started in the world \<open>w\<close>: whatever the argument \<open>s\<close>
  and the ambient flag \<open>b\<close> are, the result and the allocations are those of the run with
  neither, the flag is left as it was, and the trace grows as in that run when neither is
  set and not at all otherwise.
\<close>

definition silenced_only ::
  "(bool \<Rightarrow> ('s, 'd, 'p, 'a, 'c, 'x) world \<Rightarrow> 'r \<times> ('s, 'd, 'p, 'a, 'c, 'x) world) \<Rightarrow>
   ('s, 'd, 'p, 'a, 'c, 'x) world \<Rightarrow> bool" where
  "silenced_only op w =
     (\<forall>s b.
        (let loud = op False (w\<lparr>suppressUpdateContextual := False\<rparr>);
             R = op s (w\<lparr>suppressUpdateContextual := b\<rparr>)
         in fst R = fst loud \<and>
            next_addr (snd R) = next_addr (snd loud) \<and>
            suppressUpdateContextual (snd R) = b \<and>
            onChange_calls (snd R) =
              (if s \<or> b then onChange_calls w else onChange_calls (snd loud))))"

section \<open>A small form\<close>

text \<open>
  Concrete inputs: documents are numbers or objects; the updater replaces a property of an
  object and throws on any other key path; the validator wants property \<open>a\<close> not to be
  zero and throws on a document that is no object.
\<close>

datatype doc = Num nat | Obj "(string \<times> doc) list"

definition demo_update :: "doc \<Rightarrow> keyPath \<Rightarrow> doc \<Rightarrow> unit \<Rightarrow> string + doc" where
  "demo_update d kp x sch =
     (case (d, kp) of
        (Obj kvs, [Name k]) \<Rightarrow> Inr (Obj (map (\<lambda>(k', y). if k' = k then (k', x) else (k', y)) kvs))
      | _ \<Rightarrow> Inl ''unsupported key path'')"

definition demo_validate :: "unit \<Rightarrow> doc \<Rightarrow> string + string error list" where
  "demo_validate sch d =
     (case d of
        Obj kvs \<Rightarrow>
          Inr (if map_of kvs ''a'' = Some (Num 0)
               then [\<lparr>ref = 1, field = ''data.a'', attrs = ''must not be zero''\<rparr>]
               else [])
      | Num n \<Rightarrow> Inl ''not an object'')"

definition e_taken :: "string error" where
  "e_taken = \<lparr>ref = 2, field = ''data.a'', attrs = ''taken''\<rparr>"

definition e_deep :: "string error" where
  "e_deep = \<lparr>ref = 3, field = ''data.a.b'', attrs = ''deep''\<rparr>"

definition e_ab :: "string error" where
  "e_ab = \<lparr>ref = 4, field = ''data.ab'', attrs = ''other''\<rparr>"

text \<open>An object with the content of \<open>e_taken\<close> that is not \<open>e_taken\<close>.\<close>

definition e_copy :: "string error" where
  "e_copy = \<lparr>ref = 9, field = ''data.a'', attrs = ''taken''\<rparr>"

definition demo_root :: "(unit, doc, nat, string, nat, string) ValueRoot_obj" where
  "demo_root =
     \<lparr>addr = 0, schema = (), value_doc = Obj [(''a'', Num 1)], onChange = 0,
      params = Map.empty, priv_errorList = [],
      priv_externalErrorList = [e_deep, e_taken, e_ab, e_taken],
      validate = demo_validate\<rparr>"

definition demo_branch :: "(unit, doc, nat, string, nat, string) Value" where
  "demo_branch = ValueBranch 5 demo_root [Name ''a'']"

definition demo_world :: "(unit, doc, nat, string, nat, string) world" where
  "demo_world =
     \<lparr>suppressUpdateContextual = False, next_addr = 10, onChange_calls = [],
      onChange_throws = (\<lambda>cb r kp. None)\<rparr>"

text \<open>The same world with callbacks that throw.\<close>

definition throwing_world :: "(unit, doc, nat, string, nat, string) world" where
  "throwing_world = demo_world\<lparr>onChange_throws := (\<lambda>cb r kp. Some ''callback failed'')\<rparr>"

text \<open>
  \<^verbatim>\<open>suppressUpdate(() => { suppressUpdate(() => {}); let v = branch.addError(e);
  return flag; })\<close>, where \<^verbatim>\<open>flag\<close> stands for the module variable as it is after the inner
  scope.
\<close>

definition demo_inner ::
  "(unit, doc, nat, string, nat, string) world \<Rightarrow>
   (string + unit) \<times> (unit, doc, nat, string, nat, string) world" where
  "demo_inner w = (Inr (), w)"

definition demo_outer ::
  "(unit, doc, nat, string, nat, string) world \<Rightarrow>
   (string + bool) \<times> (unit, doc, nat, string, nat, string) world" where
  "demo_outer w =
     (let (r, w1) = suppressUpdate demo_inner w;
          (v, w2) = addError demo_branch e_copy False w1
      in (case v of Inl exn \<Rightarrow> Inl exn | Inr v' \<Rightarrow> Inr (suppressUpdateContextual w1), w2))"

section \<open>Facts about the model\<close>

lemma join_Cons: "join (x # xs) sep = x @ concat (map (\<lambda>y. sep @ y) xs)"
  by (induction xs arbitrary: x) simp_all

lemma dataField_exactField: "dataField kp = exactField kp"
  by (simp add: dataField_def exactField_def join_Cons comp_def)

lemma prefix_check:
  "(take (length fld) s = fld \<and> charAt s (length fld) = Some CHR ''.'') \<longleftrightarrow>
   prefix (fld @ ''.'') s"
proof
  assume h: "take (length fld) s = fld \<and> charAt s (length fld) = Some CHR ''.''"
  then have lt: "length fld < length s" and c: "s ! length fld = CHR ''.''"
    by (auto simp: charAt_def split: if_splits)
  have "s = take (length fld) s @ drop (length fld) s" by simp
  also have "drop (length fld) s = s ! length fld # drop (Suc (length fld)) s"
    using lt by (simp add: Cons_nth_drop_Suc)
  finally have "s = fld @ CHR ''.'' # drop (Suc (length fld)) s"
    using h c by simp
  then have "s = (fld @ ''.'') @ drop (Suc (length fld)) s" by simp
  then show "prefix (fld @ ''.'') s" unfolding prefix_def by blast
next
  assume "prefix (fld @ ''.'') s"
  then obtain r where "s = fld @ ''.'' @ r" by (auto simp: prefix_def)
  then show "take (length fld) s = fld \<and> charAt s (length fld) = Some CHR ''.''"
    by (simp add: charAt_def nth_append)
qed

lemma toStringNat_0: "toStringNat 0 = ''0''"
  by code_simp

lemma select_eq:
  "select v kp w =
     (if kp = [] then (v, w)
      else (ValueBranch (next_addr w) (root v) (keyPath v @ kp),
            w\<lparr>next_addr := Suc (next_addr w)\<rparr>))"
  by (simp add: select_def makeKeyPath_def new_ValueBranch_def)

lemma createRoot_eq:
  "createRoot v upd w =
     (\<lparr>addr = next_addr w,
       schema = (case u_schema upd of Some x \<Rightarrow> x | None \<Rightarrow> schema (root v)),
       value_doc = (case u_value upd of Some x \<Rightarrow> x | None \<Rightarrow> value_doc (root v)),
       onChange = (case u_onChange upd of Some x \<Rightarrow> x | None \<Rightarrow> onChange (root v)),
       params = (case u_params upd of Some x \<Rightarrow> x | None \<Rightarrow> params (root v)),
       priv_errorList = (case u_errorList upd of Some x \<Rightarrow> x | None \<Rightarrow> priv_errorList (root v)),
       priv_externalErrorList =
         (case u_externalErrorList upd of Some x \<Rightarrow> x | None \<Rightarrow> priv_externalErrorList (root v)),
       validate = (case u_validate upd of Some x \<Rightarrow> x | None \<Rightarrow> validate (root v))\<rparr>,
      w\<lparr>next_addr := Suc (next_addr w)\<rparr>)"
  by (simp add: createRoot_def new_ValueRoot_def spread_def Let_def split: option.splits)

lemma createRoot_params:
  "createRoot v (no_update\<lparr>u_params := Some ps\<rparr>) w =
     ((root v)\<lparr>addr := next_addr w, params := ps\<rparr>, w\<lparr>next_addr := Suc (next_addr w)\<rparr>)"
  by (simp add: createRoot_eq no_update_def)

lemma createRoot_value:
  "createRoot v (no_update\<lparr>u_value := Some d, u_errorList := Some es\<rparr>) w =
     ((root v)\<lparr>addr := next_addr w, value_doc := d, priv_errorList := es\<rparr>,
      w\<lparr>next_addr := Suc (next_addr w)\<rparr>)"
  by (simp add: createRoot_eq no_update_def)

lemma createRoot_external:
  "createRoot v (no_update\<lparr>u_externalErrorList := Some es\<rparr>) w =
     ((root v)\<lparr>addr := next_addr w, priv_externalErrorList := es\<rparr>,
      w\<lparr>next_addr := Suc (next_addr w)\<rparr>)"
  by (simp add: createRoot_eq no_update_def)

lemma createRoot_schema:
  "createRoot v (no_update\<lparr>u_schema := Some sch, u_errorList := Some es\<rparr>) w =
     ((root v)\<lparr>addr := next_addr w, schema := sch, priv_errorList := es\<rparr>,
      w\<lparr>next_addr := Suc (next_addr w)\<rparr>)"
  by (simp add: createRoot_eq no_update_def)

lemmas tail_defs = select_eq call_onChange_def Let_def notify_reselect_def

lemma updateParams_eq:
  "updateParams v ps s w =
     notify_reselect v ((root v)\<lparr>addr := next_addr w, params := params (root v) ++ ps\<rparr>) s
       (w\<lparr>next_addr := Suc (next_addr w)\<rparr>)"
  by (simp add: updateParams_def createRoot_params tail_defs split: option.splits)

lemma update_eq:
  "update upd v x s w =
     (case (if keyPath v = [] then Inr x
            else upd (value_doc (root v)) (keyPath v) x (schema (root v))) of
        Inl exn \<Rightarrow> (Inl exn, w)
      | Inr d \<Rightarrow>
          (case validate (root v) (schema (root v)) d of
             Inl exn \<Rightarrow> (Inl exn, w)
           | Inr es \<Rightarrow>
               notify_reselect v
                 ((root v)\<lparr>addr := next_addr w, value_doc := d, priv_errorList := es\<rparr>) s
                 (w\<lparr>next_addr := Suc (next_addr w)\<rparr>)))"
  by (simp add: update_def createRoot_value tail_defs split: sum.splits option.splits)

lemma stamp_each_eq:
  "stamp_each es fld w =
     (map (\<lambda>(a, e). \<lparr>ref = a, field = fld, attrs = attrs e\<rparr>)
        (zip [next_addr w ..< next_addr w + length es] es),
      w\<lparr>next_addr := next_addr w + length es\<rparr>)"
proof (induction es arbitrary: w)
  case Nil
  show ?case by simp
next
  case (Cons e es)
  show ?case
    by (simp add: stamp_def Cons.IH upt_conv_Cons del: upt_Suc)
qed

lemma updateError_One_eq:
  "updateError v (One e) s w =
     notify_reselect v
       ((root v)\<lparr>addr := Suc (next_addr w),
          priv_externalErrorList :=
            [\<lparr>ref = next_addr w, field = dataField (keyPath v), attrs = attrs e\<rparr>]\<rparr>) s
       (w\<lparr>next_addr := Suc (Suc (next_addr w))\<rparr>)"
  by (simp add: updateError_def stamp_def createRoot_external tail_defs split: option.splits)

lemma updateError_Many_eq:
  "updateError v (Many es) s w =
     notify_reselect v
       ((root v)\<lparr>addr := next_addr w + length es,
          priv_externalErrorList :=
            map (\<lambda>(a, e). \<lparr>ref = a, field = dataField (keyPath v), attrs = attrs e\<rparr>)
              (zip [next_addr w ..< next_addr w + length es] es)\<rparr>) s
       (w\<lparr>next_addr := Suc (next_addr w + length es)\<rparr>)"
  by (simp add: updateError_def stamp_each_eq createRoot_external tail_defs split: option.splits)

lemma addError_eq:
  "addError v e s w =
     notify_reselect v
       ((root v)\<lparr>addr := Suc (next_addr w),
          priv_externalErrorList := priv_externalErrorList (root v) @
            [\<lparr>ref = next_addr w, field = dataField (keyPath v), attrs = attrs e\<rparr>]\<rparr>) s
       (w\<lparr>next_addr := Suc (Suc (next_addr w))\<rparr>)"
  by (simp add: addError_def stamp_def createRoot_external tail_defs split: option.splits)

lemma removeError_eq:
  "removeError v e s w =
     (if indexOf (priv_externalErrorList (root v)) e > - 1 then
        notify_reselect v
          ((root v)\<lparr>addr := next_addr w,
             priv_externalErrorList :=
               splice1 (priv_externalErrorList (root v))
                 (nat (indexOf (priv_externalErrorList (root v)) e))\<rparr>) s
          (w\<lparr>next_addr := Suc (next_addr w)\<rparr>)
      else (Inr v, w))"
  by (simp add: removeError_def createRoot_external tail_defs split: option.splits)

lemma setSchema_eq:
  "setSchema r sch w =
     (case validate r sch (value_doc r) of
        Inl exn \<Rightarrow> (Inl exn, w)
      | Inr es \<Rightarrow>
          (Inr (ValueRoot (r\<lparr>addr := next_addr w, schema := sch, priv_errorList := es\<rparr>)),
           w\<lparr>next_addr := Suc (next_addr w)\<rparr>))"
  by (simp add: setSchema_def createRoot_schema Let_def split: sum.splits)

lemma indexOf_from_absent:
  "\<forall>y \<in> set xs. ref y \<noteq> ref e \<Longrightarrow> indexOf_from xs e k = - 1"
  by (induction xs arbitrary: k) simp_all

lemma indexOf_from_first:
  "\<forall>y \<in> set pre. ref y \<noteq> ref e \<Longrightarrow> ref x = ref e \<Longrightarrow>
   indexOf_from (pre @ x # post) e k = k + int (length pre)"
  by (induction pre arbitrary: k) simp_all

lemma indexOf_absent: "\<forall>y \<in> set xs. ref y \<noteq> ref e \<Longrightarrow> indexOf xs e = - 1"
  by (simp add: indexOf_def indexOf_from_absent)

lemma indexOf_first:
  "\<forall>y \<in> set pre. ref y \<noteq> ref e \<Longrightarrow> ref x = ref e \<Longrightarrow>
   indexOf (pre @ x # post) e = int (length pre)"
  by (simp add: indexOf_def indexOf_from_first)

lemma splice1_middle: "splice1 (pre @ x # post) (length pre) = pre @ post"
  by (simp add: splice1_def)

lemma first_occurrence:
  "\<exists>y \<in> set xs. ref y = ref e \<Longrightarrow>
   \<exists>pre x post. xs = pre @ x # post \<and> ref x = ref e \<and> (\<forall>y \<in> set pre. ref y \<noteq> ref e)"
proof (induction xs)
  case Nil
  then show ?case by simp
next
  case (Cons a xs)
  show ?case
  proof (cases "ref a = ref e")
    case True
    then have "a # xs = [] @ a # xs \<and> ref a = ref e \<and> (\<forall>y \<in> set []. ref y \<noteq> ref e)" by simp
    then show ?thesis by blast
  next
    case False
    with Cons.prems have "\<exists>y \<in> set xs. ref y = ref e" by auto
    from Cons.IH [OF this] obtain pre x post
      where "xs = pre @ x # post" "ref x = ref e" "\<forall>y \<in> set pre. ref y \<noteq> ref e" by blast
    with False have "a # xs = (a # pre) @ x # post \<and> ref x = ref e \<and> (\<forall>y \<in> set (a # pre). ref y \<noteq> ref e)"
      by simp
    then show ?thesis by blast
  qed
qed

lemma indexOf_found:
  "\<exists>y \<in> set xs. ref y = ref e \<Longrightarrow> indexOf xs e > - 1"
proof -
  assume "\<exists>y \<in> set xs. ref y = ref e"
  from first_occurrence [OF this] obtain pre x post
    where "xs = pre @ x # post" "ref x = ref e" "\<forall>y \<in> set pre. ref y \<noteq> ref e" by blast
  then show ?thesis by (simp add: indexOf_first)
qed

text \<open>The tail produces the root it is given; allocation does not touch what it reads.\<close>

lemma notify_reselect_produces:
  "run_produces v s w (notify_reselect v r s (w\<lparr>next_addr := n\<rparr>)) r"
  by (simp add: run_produces_def notify_reselect_def Let_def split: option.splits)

lemma notify_reselect_returned:
  "fst (notify_reselect v r s w1) = Inr v' \<Longrightarrow>
   v' = fst (select (ValueRoot r) (keyPath v) w1)"
  by (auto simp add: notify_reselect_def Let_def select_eq split: option.splits if_splits)

lemma notify_reselect_flag [simp]:
  "suppressUpdateContextual (snd (notify_reselect v r s w1)) = suppressUpdateContextual w1"
  by (simp add: notify_reselect_def Let_def split: option.splits)

lemma notify_reselect_returns:
  "\<forall>r. onChange_throws w1 (onChange (root v)) r (keyPath v) = None \<Longrightarrow>
   notify_reselect v r s w1 =
     (Inr (if keyPath v = [] then ValueRoot r else ValueBranch (next_addr w1) r (keyPath v)),
      w1\<lparr>next_addr := (if keyPath v = [] then next_addr w1 else Suc (next_addr w1)),
         onChange_calls :=
           (if \<not> s \<and> \<not> suppressUpdateContextual w1
            then onChange_calls w1 @ [(onChange (root v), r, keyPath v)]
            else onChange_calls w1)\<rparr>)"
  by (simp add: notify_reselect_def Let_def)

lemma suppressUpdate_flag:
  "suppressUpdateContextual (snd (suppressUpdate tx w)) = False \<and>
   fst (suppressUpdate tx w) = fst (tx (w\<lparr>suppressUpdateContextual := True\<rparr>))"
  by (simp add: suppressUpdate_def Let_def split: prod.splits)

lemmas demo_defs = demo_root_def demo_branch_def demo_world_def throwing_world_def
  demo_update_def demo_validate_def e_taken_def e_deep_def e_ab_def e_copy_def demo_inner_def
  demo_outer_def

lemma notified_once_tail:
  "\<not> suppressUpdateContextual w \<Longrightarrow> next_addr w \<le> addr r \<Longrightarrow>
   notified_once v w (notify_reselect v r False (w\<lparr>next_addr := n\<rparr>))"
  unfolding notified_once_def
  by (rule exI [of _ r])
    (simp add: notify_reselect_produces, simp add: notify_reselect_def Let_def split: option.splits)

lemma notified_once_returns:
  assumes "notified_once v w R"
      and "\<forall>r. onChange_throws w (onChange (root v)) r (keyPath v) = None"
  shows "\<exists>v'. fst R = Inr v' \<and>
           onChange_calls (snd R) = onChange_calls w @ [(onChange (root v), root v', keyPath v)] \<and>
           next_addr w \<le> addr (root v')"
proof -
  from assms(1) obtain nextRoot where rp: "run_produces v False w R nextRoot"
    and calls: "onChange_calls (snd R) =
      onChange_calls w @ [(onChange (root v), nextRoot, keyPath v)]"
    and fresh: "next_addr w \<le> addr nextRoot"
    unfolding notified_once_def by blast
  show ?thesis
  proof (cases "fst R")
    case (Inl exn)
    with rp assms(2) show ?thesis by (simp add: run_produces_def)
  next
    case (Inr v')
    with rp have "root v' = nextRoot" by (simp add: run_produces_def)
    with Inr calls fresh show ?thesis by simp
  qed
qed

lemma update_ok:
  assumes "(if keyPath v = [] then Inr x
            else upd (value_doc (root v)) (keyPath v) x (schema (root v))) = Inr d"
      and "validate (root v) (schema (root v)) d = Inr es"
  shows "update upd v x s w =
     notify_reselect v ((root v)\<lparr>addr := next_addr w, value_doc := d, priv_errorList := es\<rparr>) s
       (w\<lparr>next_addr := Suc (next_addr w)\<rparr>)"
  using assms by (simp add: update_eq)

lemma run_produces_returned:
  assumes "run_produces v s w R nextRoot"
      and "s \<or> suppressUpdateContextual w \<or>
           onChange_throws w (onChange (root v)) nextRoot (keyPath v) = None"
  shows "\<exists>v'. fst R = Inr v' \<and> root v' = nextRoot \<and> keyPath v' = keyPath v"
proof (cases "fst R")
  case (Inl exn)
  with assms show ?thesis by (auto simp add: run_produces_def)
next
  case (Inr v')
  with assms(1) show ?thesis by (simp add: run_produces_def)
qed

lemma stamped_content:
  "map (content \<circ> (\<lambda>(a, e). \<lparr>ref = a, field = f, attrs = attrs e\<rparr>))
     (zip [n ..< n + length es] es) = map (\<lambda>e. (f, attrs e)) es"
  by (rule nth_equalityI) (simp_all add: content_def)

lemma updateError_produces:
  "\<exists>nextRoot.
     run_produces v s w (updateError v arg s w) nextRoot \<and>
     map content (priv_externalErrorList nextRoot) =
       (case arg of
          One e \<Rightarrow> [(exactField (keyPath v), attrs e)]
        | Many es \<Rightarrow> map (\<lambda>e. (exactField (keyPath v), attrs e)) es) \<and>
     priv_errorList nextRoot = priv_errorList (root v) \<and>
     value_doc nextRoot = value_doc (root v) \<and>
     schema nextRoot = schema (root v) \<and>
     params nextRoot = params (root v)"
proof (cases arg)
  case (One e)
  let ?r = "(root v)\<lparr>addr := Suc (next_addr w),
      priv_externalErrorList :=
        [\<lparr>ref = next_addr w, field = dataField (keyPath v), attrs = attrs e\<rparr>]\<rparr>"
  have "run_produces v s w (updateError v arg s w) ?r"
    unfolding One updateError_One_eq by (rule notify_reselect_produces)
  moreover have "map content (priv_externalErrorList ?r) = [(exactField (keyPath v), attrs e)]"
    by (simp add: content_def dataField_exactField)
  ultimately show ?thesis
    using One by (intro exI [of _ ?r]) simp
next
  case (Many es)
  let ?r = "(root v)\<lparr>addr := next_addr w + length es,
      priv_externalErrorList :=
        map (\<lambda>(a, e). \<lparr>ref = a, field = dataField (keyPath v), attrs = attrs e\<rparr>)
          (zip [next_addr w ..< next_addr w + length es] es)\<rparr>"
  have "run_produces v s w (updateError v arg s w) ?r"
    unfolding Many updateError_Many_eq by (rule notify_reselect_produces)
  moreover have "map content (priv_externalErrorList ?r) =
      map (\<lambda>e. (exactField (keyPath v), attrs e)) es"
    by (simp add: stamped_content dataField_exactField)
  ultimately show ?thesis
    using Many by (intro exI [of _ ?r]) simp
qed

section \<open>The claims\<close>

text \<open>
  C6. For every Value \<open>v\<close>, \<open>errorList v\<close> is the exact-match filter of the validation
  error list of the root at the key path of \<open>v\<close> (the records whose field is \<^verbatim>\<open>"data"\<close>
  dot-joined with the key path, \<^verbatim>\<open>"data"\<close> alone for the empty key path) followed by the
  exact-match filter of the external error list at the same path, each in the order of its
  source list.
\<close>

theorem errorList_exact_filters:
  "errorList v =
     filter (\<lambda>e. field e = exactField (keyPath v)) (priv_errorList (root v)) @
     filter (\<lambda>e. field e = exactField (keyPath v)) (priv_externalErrorList (root v)) \<and>
   exactField [] = ''data'' \<and>
   exactField [Name ''a'', Index 0] = ''data.a.0''"
  by (simp add: errorList_def filterErrorListByKeyPath_def dataField_exactField exactField_def
      toStringNat_0)

text \<open>
  C7. \<open>completeErrorList\<close> matches by prefix. At the empty key path it is the two error
  lists of the root unfiltered, validation errors first. At a non-empty key path it keeps
  exactly the records whose field is the field string of the key path or starts with that
  string and a dot, in source order; so a record with field \<^verbatim>\<open>"data.ab"\<close> is not selected
  at the key path \<^verbatim>\<open>["a"]\<close>. The function is total.
\<close>

theorem completeErrorList_prefix_filters:
  "completeErrorList v =
     (if keyPath v = [] then priv_errorList (root v) @ priv_externalErrorList (root v)
      else
        filter (\<lambda>e. field e = exactField (keyPath v) \<or>
                    prefix (exactField (keyPath v) @ ''.'') (field e))
          (priv_errorList (root v)) @
        filter (\<lambda>e. field e = exactField (keyPath v) \<or>
                    prefix (exactField (keyPath v) @ ''.'') (field e))
          (priv_externalErrorList (root v))) \<and>
   filter (\<lambda>e. field e = ''data.ab'') (completeErrorList (ValueBranch a r [Name ''a''])) = []"
  by (auto simp add: completeErrorList_def filterErrorListByKeyPathPrefix_def Let_def
      prefix_check dataField_exactField exactField_def filter_empty_conv)

text \<open>
  C8. Selection composes by concatenation, and the empty selection is the identity: for
  key paths \<open>p\<close> and \<open>q\<close> given as segment sequences, \<open>v.select(p).select(q)\<close> has the key path
  \<open>keyPath v @ p @ q\<close> and the root of \<open>v\<close>, and \<open>v.select([])\<close> is \<open>v\<close> itself: the same
  instance, and no object is allocated.
\<close>

theorem select_compose:
  "select v [] w = (v, w) \<and>
   keyPath (fst (select (fst (select v p w)) q (snd (select v p w)))) = keyPath v @ p @ q \<and>
   root (fst (select (fst (select v p w)) q (snd (select v p w)))) = root v"
  by (simp add: select_eq)

text \<open>
  C1. For every non-suppressed \<open>update\<close>, \<open>updateParams\<close>, \<open>updateError\<close>, \<open>addError\<close> and
  found \<open>removeError\<close> on a Value, the \<open>onChange\<close> callback of the root is called exactly
  once, with the newly created root (at a fresh address, and the root of the returned
  Value when the callback returns) as first argument and the key path of the receiver as
  second argument. \<open>setSchema\<close> never calls the callback.
\<close>

theorem onChange_invoked_once:
  assumes "\<not> suppressUpdateContextual w"
  shows
  "notified_once v w (updateParams v ps False w) \<and>
   notified_once v w (updateError v arg False w) \<and>
   notified_once v w (addError v e False w) \<and>
   ((\<exists>y \<in> set (priv_externalErrorList (root v)). ref y = ref e') \<longrightarrow>
      notified_once v w (removeError v e' False w)) \<and>
   (\<forall>d es.
      (if keyPath v = [] then Inr x
       else upd (value_doc (root v)) (keyPath v) x (schema (root v))) = Inr d \<longrightarrow>
      validate (root v) (schema (root v)) d = Inr es \<longrightarrow>
      notified_once v w (update upd v x False w)) \<and>
   onChange_calls (snd (setSchema r sch w)) = onChange_calls w"
proof -
  have p: "notified_once v w (updateParams v ps False w)"
    unfolding updateParams_eq using assms by (intro notified_once_tail) simp_all
  have ue: "notified_once v w (updateError v arg False w)"
  proof (cases arg)
    case (One e1)
    show ?thesis
      unfolding One updateError_One_eq using assms by (intro notified_once_tail) simp_all
  next
    case (Many es)
    show ?thesis
      unfolding Many updateError_Many_eq using assms by (intro notified_once_tail) simp_all
  qed
  have ae: "notified_once v w (addError v e False w)"
    unfolding addError_eq using assms by (intro notified_once_tail) simp_all
  have re: "(\<exists>y \<in> set (priv_externalErrorList (root v)). ref y = ref e') \<longrightarrow>
      notified_once v w (removeError v e' False w)"
  proof
    assume "\<exists>y \<in> set (priv_externalErrorList (root v)). ref y = ref e'"
    from indexOf_found [OF this]
    have eq: "removeError v e' False w =
        notify_reselect v
          ((root v)\<lparr>addr := next_addr w,
             priv_externalErrorList :=
               splice1 (priv_externalErrorList (root v))
                 (nat (indexOf (priv_externalErrorList (root v)) e'))\<rparr>) False
          (w\<lparr>next_addr := Suc (next_addr w)\<rparr>)"
      by (simp add: removeError_eq)
    show "notified_once v w (removeError v e' False w)"
      unfolding eq using assms by (intro notified_once_tail) simp_all
  qed
  have up: "\<forall>d es.
      (if keyPath v = [] then Inr x
       else upd (value_doc (root v)) (keyPath v) x (schema (root v))) = Inr d \<longrightarrow>
      validate (root v) (schema (root v)) d = Inr es \<longrightarrow>
      notified_once v w (update upd v x False w)"
  proof (intro allI impI)
    fix d es
    assume a: "(if keyPath v = [] then Inr x
       else upd (value_doc (root v)) (keyPath v) x (schema (root v))) = Inr d"
      and b: "validate (root v) (schema (root v)) d = Inr es"
    have eq: "update upd v x False w =
        notify_reselect v ((root v)\<lparr>addr := next_addr w, value_doc := d, priv_errorList := es\<rparr>)
          False (w\<lparr>next_addr := Suc (next_addr w)\<rparr>)"
      using a b by (rule update_ok)
    show "notified_once v w (update upd v x False w)"
      unfolding eq using assms by (intro notified_once_tail) simp_all
  qed
  have ss: "onChange_calls (snd (setSchema r sch w)) = onChange_calls w"
    by (simp add: setSchema_eq split: sum.splits)
  from p ue ae re up ss show ?thesis by blast
qed

text \<open>
  The theorem at the small form, whose callback returns: every operation on the branch
  \<open>a\<close> returns a Value and leaves one call, with the root of that Value.
\<close>

theorem onChange_invoked_once_witness:
  "\<not> suppressUpdateContextual demo_world \<and>
   (\<exists>v'. fst (updateParams demo_branch [''k'' \<mapsto> 1] False demo_world) = Inr v' \<and>
      onChange_calls (snd (updateParams demo_branch [''k'' \<mapsto> 1] False demo_world)) =
        [(0, root v', [Name ''a''])]) \<and>
   (\<exists>v'. fst (updateError demo_branch (One e_copy) False demo_world) = Inr v' \<and>
      onChange_calls (snd (updateError demo_branch (One e_copy) False demo_world)) =
        [(0, root v', [Name ''a''])]) \<and>
   (\<exists>v'. fst (addError demo_branch e_copy False demo_world) = Inr v' \<and>
      onChange_calls (snd (addError demo_branch e_copy False demo_world)) =
        [(0, root v', [Name ''a''])]) \<and>
   (\<exists>v'. fst (removeError demo_branch e_taken False demo_world) = Inr v' \<and>
      onChange_calls (snd (removeError demo_branch e_taken False demo_world)) =
        [(0, root v', [Name ''a''])]) \<and>
   (\<exists>v'. fst (update demo_update demo_branch (Num 2) False demo_world) = Inr v' \<and>
      onChange_calls (snd (update demo_update demo_branch (Num 2) False demo_world)) =
        [(0, root v', [Name ''a''])]) \<and>
   onChange_calls (snd (setSchema demo_root () demo_world)) = []"
proof -
  have flag: "\<not> suppressUpdateContextual demo_world"
    by (simp add: demo_world_def)
  have found: "\<exists>y \<in> set (priv_externalErrorList (root demo_branch)). ref y = ref e_taken"
    by (simp add: demo_defs)
  have upd: "(if keyPath demo_branch = [] then Inr (Num 2)
       else demo_update (value_doc (root demo_branch)) (keyPath demo_branch) (Num 2)
              (schema (root demo_branch))) = Inr (Obj [(''a'', Num 2)])"
    by (simp add: demo_defs)
  have val: "validate (root demo_branch) (schema (root demo_branch)) (Obj [(''a'', Num 2)]) = Inr []"
    by (simp add: demo_defs)
  have ret: "\<forall>r. onChange_throws demo_world (onChange (root demo_branch)) r (keyPath demo_branch) = None"
    by (simp add: demo_world_def)
  have calls: "onChange_calls demo_world = []" and cb: "onChange (root demo_branch) = 0"
    and kp: "keyPath demo_branch = [Name ''a'']"
    by (simp_all add: demo_defs)
  note T = onChange_invoked_once [OF flag, where v = demo_branch and ps = "[''k'' \<mapsto> 1]"
      and arg = "One e_copy" and e = e_copy and e' = e_taken and upd = demo_update
      and x = "Num 2" and r = demo_root and sch = "()"]
  from T have n1: "notified_once demo_branch demo_world
      (updateParams demo_branch [''k'' \<mapsto> 1] False demo_world)" by blast
  from T have n2: "notified_once demo_branch demo_world
      (updateError demo_branch (One e_copy) False demo_world)" by blast
  from T have n3: "notified_once demo_branch demo_world
      (addError demo_branch e_copy False demo_world)" by blast
  from T found have n4: "notified_once demo_branch demo_world
      (removeError demo_branch e_taken False demo_world)" by blast
  from T upd val have n5: "notified_once demo_branch demo_world
      (update demo_update demo_branch (Num 2) False demo_world)" by blast
  from T have n6: "onChange_calls (snd (setSchema demo_root () demo_world)) = []"
    by (simp add: calls)
  note r1 = notified_once_returns [OF n1 ret, unfolded calls cb kp append_Nil]
    and r2 = notified_once_returns [OF n2 ret, unfolded calls cb kp append_Nil]
    and r3 = notified_once_returns [OF n3 ret, unfolded calls cb kp append_Nil]
    and r4 = notified_once_returns [OF n4 ret, unfolded calls cb kp append_Nil]
    and r5 = notified_once_returns [OF n5 ret, unfolded calls cb kp append_Nil]
  from r1 r2 r3 r4 r5 flag n6 show ?thesis
    by blast
qed

text \<open>
  The claim as stated counts \<open>setSchema\<close> among the notifying operations; on the small
  form, with the flag clear, \<open>setSchema\<close> returns a new root and the trace stays empty.
\<close>

theorem setSchema_notifies_counterexample:
  "\<not> suppressUpdateContextual demo_world \<and>
   fst (setSchema demo_root () demo_world) = Inr (ValueRoot (demo_root\<lparr>addr := 10\<rparr>)) \<and>
   onChange_calls (snd (setSchema demo_root () demo_world)) = [] \<and>
   onChange_calls (snd (setSchema demo_root () demo_world)) \<noteq>
     onChange_calls demo_world @ [(onChange demo_root, demo_root\<lparr>addr := 10\<rparr>, [])]"
  by (simp add: setSchema_eq demo_defs)

text \<open>
  C2. \<open>suppressUpdate\<close> sets the flag, runs the callback and, on both exit paths, assigns
  \<^verbatim>\<open>false\<close> to the flag; it does not restore the value of the flag on entry. With a scope
  nested in another one, the flag reads false in the outer callback after the inner scope
  has ended, and an \<open>addError\<close> made there, inside the outer scope, calls \<open>onChange\<close>.
\<close>

theorem suppressUpdate_nested_clears_flag:
  "fst (suppressUpdate demo_outer demo_world) = Inr False \<and>
   length (onChange_calls (snd (suppressUpdate demo_outer demo_world))) = 1 \<and>
   suppressUpdateContextual
     (snd (suppressUpdate demo_inner (demo_world\<lparr>suppressUpdateContextual := True\<rparr>))) = False"
  by (simp add: suppressUpdate_def demo_outer_def demo_inner_def Let_def addError_eq
      notify_reselect_def demo_world_def demo_branch_def)

text \<open>
  C3. When the updater and the validator return, \<open>update\<close> produces a new root whose
  document is what the updater returned for the key path of the receiver (the new value
  itself when that key path is empty) and whose validation error list is what the
  validator returned for the schema and the new document; the external error list, the
  schema, the params, the callback and the validator of the root are those of the old
  root, and the returned Value is the selection of the key path of the receiver on the
  new root. (The method returns unless the callback, called with that root, throws.)
\<close>

theorem update_frame:
  assumes "(if keyPath v = [] then Inr newValue
            else upd (value_doc (root v)) (keyPath v) newValue (schema (root v))) = Inr d"
      and "validate (root v) (schema (root v)) d = Inr es"
  shows
  "\<exists>nextRoot.
     run_produces v s w (update upd v newValue s w) nextRoot \<and>
     value_doc nextRoot = d \<and>
     (keyPath v = [] \<longrightarrow> value_doc nextRoot = newValue) \<and>
     priv_errorList nextRoot = es \<and>
     priv_externalErrorList nextRoot = priv_externalErrorList (root v) \<and>
     schema nextRoot = schema (root v) \<and>
     params nextRoot = params (root v) \<and>
     onChange nextRoot = onChange (root v) \<and>
     validate nextRoot = validate (root v) \<and>
     addr nextRoot = next_addr w \<and>
     (\<forall>v'. fst (update upd v newValue s w) = Inr v' \<longrightarrow>
        v' = fst (select (ValueRoot nextRoot) (keyPath v) (w\<lparr>next_addr := Suc (next_addr w)\<rparr>)))"
proof -
  let ?r = "(root v)\<lparr>addr := next_addr w, value_doc := d, priv_errorList := es\<rparr>"
  let ?w1 = "w\<lparr>next_addr := Suc (next_addr w)\<rparr>"
  have eq: "update upd v newValue s w = notify_reselect v ?r s ?w1"
    using assms by (rule update_ok)
  have whole: "keyPath v = [] \<longrightarrow> d = newValue"
    using assms(1) by (auto split: if_splits)
  have prod: "run_produces v s w (update upd v newValue s w) ?r"
    unfolding eq by (rule notify_reselect_produces)
  have sel: "\<forall>v'. fst (update upd v newValue s w) = Inr v' \<longrightarrow>
      v' = fst (select (ValueRoot ?r) (keyPath v) ?w1)"
    unfolding eq by (blast dest: notify_reselect_returned)
  have frame: "value_doc ?r = d \<and>
     (keyPath v = [] \<longrightarrow> value_doc ?r = newValue) \<and>
     priv_errorList ?r = es \<and>
     priv_externalErrorList ?r = priv_externalErrorList (root v) \<and>
     schema ?r = schema (root v) \<and>
     params ?r = params (root v) \<and>
     onChange ?r = onChange (root v) \<and>
     validate ?r = validate (root v) \<and>
     addr ?r = next_addr w"
    using whole by simp
  from prod frame sel show ?thesis by blast
qed

theorem update_frame_witness:
  "\<exists>v' w'. update demo_update demo_branch (Num 2) False demo_world = (Inr v', w') \<and>
     value_doc (root v') = Obj [(''a'', Num 2)] \<and>
     priv_errorList (root v') = [] \<and>
     priv_externalErrorList (root v') = [e_deep, e_taken, e_ab, e_taken] \<and>
     addr (root v') = 10 \<and>
     v' = ValueBranch 11 (root v') [Name ''a'']"
proof -
  have upd: "(if keyPath demo_branch = [] then Inr (Num 2)
       else demo_update (value_doc (root demo_branch)) (keyPath demo_branch) (Num 2)
              (schema (root demo_branch))) = Inr (Obj [(''a'', Num 2)])"
    by (simp add: demo_defs)
  have val: "validate (root demo_branch) (schema (root demo_branch)) (Obj [(''a'', Num 2)]) = Inr []"
    by (simp add: demo_defs)
  have ext: "priv_externalErrorList (root demo_branch) = [e_deep, e_taken, e_ab, e_taken]"
    and kp: "keyPath demo_branch = [Name ''a'']" and n: "next_addr demo_world = 10"
    and ret: "onChange_throws demo_world = (\<lambda>cb r kp. None)"
    and flag: "\<not> suppressUpdateContextual demo_world"
    by (simp_all add: demo_root_def demo_branch_def demo_world_def)
  from update_frame [where upd = demo_update and v = demo_branch and newValue = "Num 2"
      and d = "Obj [(''a'', Num 2)]" and es = "[]" and s = False and w = demo_world, OF upd val]
  obtain nextRoot where
    rp: "run_produces demo_branch False demo_world
           (update demo_update demo_branch (Num 2) False demo_world) nextRoot"
    and fr: "value_doc nextRoot = Obj [(''a'', Num 2)]" "priv_errorList nextRoot = []"
      "priv_externalErrorList nextRoot = [e_deep, e_taken, e_ab, e_taken]" "addr nextRoot = 10"
    and sel: "\<forall>v'. fst (update demo_update demo_branch (Num 2) False demo_world) = Inr v' \<longrightarrow>
        v' = fst (select (ValueRoot nextRoot) [Name ''a''] (demo_world\<lparr>next_addr := 11\<rparr>))"
    by (auto simp add: ext kp n)
  obtain res w' where R: "update demo_update demo_branch (Num 2) False demo_world = (res, w')"
    by (cases "update demo_update demo_branch (Num 2) False demo_world")
  show ?thesis
  proof (cases res)
    case (Inl exn)
    with rp R ret show ?thesis by (simp add: run_produces_def)
  next
    case (Inr v')
    with rp R have "root v' = nextRoot" by (simp add: run_produces_def)
    moreover from sel R Inr have "v' = ValueBranch 11 nextRoot [Name ''a'']"
      by (simp add: select_eq)
    ultimately show ?thesis using R Inr fr by simp
  qed
qed

text \<open>
  C4. \<open>removeError\<close> compares by identity: it removes the first entry of the external error
  list that is the same object as the argument and keeps the others in order; when no
  entry is that object (whatever the contents of the entries), it returns the receiver
  and leaves the world as it is: no new root, no call of \<open>onChange\<close>.
\<close>

theorem removeError_by_identity:
  "(\<forall>pre x post.
      priv_externalErrorList (root v) = pre @ x # post \<longrightarrow>
      ref x = ref e \<longrightarrow> (\<forall>y \<in> set pre. ref y \<noteq> ref e) \<longrightarrow>
      (\<exists>nextRoot. run_produces v s w (removeError v e s w) nextRoot \<and>
         priv_externalErrorList nextRoot = pre @ post)) \<and>
   ((\<forall>y \<in> set (priv_externalErrorList (root v)). ref y \<noteq> ref e) \<longrightarrow>
      removeError v e s w = (Inr v, w))"
proof (intro conjI allI impI)
  fix pre x post
  assume l: "priv_externalErrorList (root v) = pre @ x # post"
    and x: "ref x = ref e" and pre: "\<forall>y \<in> set pre. ref y \<noteq> ref e"
  let ?r = "(root v)\<lparr>addr := next_addr w, priv_externalErrorList := pre @ post\<rparr>"
  have "indexOf (priv_externalErrorList (root v)) e = int (length pre)"
    unfolding l by (rule indexOf_first [OF pre x])
  then have eq: "removeError v e s w = notify_reselect v ?r s (w\<lparr>next_addr := Suc (next_addr w)\<rparr>)"
    by (simp add: removeError_eq l splice1_middle)
  have "run_produces v s w (removeError v e s w) ?r"
    unfolding eq by (rule notify_reselect_produces)
  moreover have "priv_externalErrorList ?r = pre @ post" by simp
  ultimately show "\<exists>nextRoot. run_produces v s w (removeError v e s w) nextRoot \<and>
      priv_externalErrorList nextRoot = pre @ post" by blast
next
  assume "\<forall>y \<in> set (priv_externalErrorList (root v)). ref y \<noteq> ref e"
  then have "indexOf (priv_externalErrorList (root v)) e = - 1"
    by (rule indexOf_absent)
  then show "removeError v e s w = (Inr v, w)"
    by (simp add: removeError_eq)
qed

text \<open>
  On the small form: removing \<open>e_taken\<close>, which occurs twice, removes its first
  occurrence; removing \<open>e_copy\<close>, an object with the content of \<open>e_taken\<close>, does nothing.
\<close>

theorem removeError_by_identity_witness:
  "(\<exists>v'. fst (removeError demo_branch e_taken False demo_world) = Inr v' \<and>
      priv_externalErrorList (root v') = [e_deep, e_ab, e_taken]) \<and>
   content e_copy = content e_taken \<and>
   e_taken \<in> set (priv_externalErrorList (root demo_branch)) \<and>
   removeError demo_branch e_copy False demo_world = (Inr demo_branch, demo_world)"
proof -
  have l: "priv_externalErrorList (root demo_branch) = [e_deep] @ e_taken # [e_ab, e_taken]"
    by (simp add: demo_root_def demo_branch_def)
  have pre: "\<forall>y \<in> set [e_deep]. ref y \<noteq> ref e_taken"
    by (simp add: e_deep_def e_taken_def)
  have absent: "\<forall>y \<in> set (priv_externalErrorList (root demo_branch)). ref y \<noteq> ref e_copy"
    by (simp add: demo_defs)
  have c: "content e_copy = content e_taken"
    by (simp add: content_def e_copy_def e_taken_def)
  have m: "e_taken \<in> set (priv_externalErrorList (root demo_branch))"
    by (simp add: l)
  have ret: "onChange_throws demo_world (onChange (root demo_branch)) r (keyPath demo_branch) = None"
    for r by (simp add: demo_world_def)
  from removeError_by_identity [of demo_branch e_taken False demo_world] l pre
  obtain nextRoot where
    rp: "run_produces demo_branch False demo_world
           (removeError demo_branch e_taken False demo_world) nextRoot"
    and ext: "priv_externalErrorList nextRoot = [e_deep] @ [e_ab, e_taken]"
    by blast
  from run_produces_returned [OF rp] ret ext
  have found: "\<exists>v'. fst (removeError demo_branch e_taken False demo_world) = Inr v' \<and>
      priv_externalErrorList (root v') = [e_deep, e_ab, e_taken]"
    by auto
  have notfound: "removeError demo_branch e_copy False demo_world = (Inr demo_branch, demo_world)"
    using removeError_by_identity [of demo_branch e_copy False demo_world] absent by blast
  from found notfound c m show ?thesis by blast
qed

text \<open>
  C5. \<open>updateError\<close> replaces the whole external error list by the supplied records: one
  record gives a one-element list, a list gives a list of the same length and order, and
  every stored record carries the field string of the key path of the receiver (whatever
  field the caller supplied) and the other attributes of the supplied record. Hence calling
  \<open>updateError\<close> again on the returned Value with the same argument gives an external
  error list of the same content.
\<close>

theorem updateError_replaces:
  "(\<exists>nextRoot. run_produces v s w (updateError v (One e) s w) nextRoot \<and>
      map content (priv_externalErrorList nextRoot) = [(exactField (keyPath v), attrs e)]) \<and>
   (\<exists>nextRoot. run_produces v s w (updateError v (Many es) s w) nextRoot \<and>
      map content (priv_externalErrorList nextRoot) =
        map (\<lambda>e. (exactField (keyPath v), attrs e)) es) \<and>
   (\<forall>v1 w1. updateError v arg s w = (Inr v1, w1) \<longrightarrow>
      (\<exists>nextRoot. run_produces v1 s' w1 (updateError v1 arg s' w1) nextRoot \<and>
         map content (priv_externalErrorList nextRoot) =
           map content (priv_externalErrorList (root v1))))"
proof (intro conjI allI impI)
  from updateError_produces [of v s w "One e"]
  show "\<exists>nextRoot. run_produces v s w (updateError v (One e) s w) nextRoot \<and>
      map content (priv_externalErrorList nextRoot) = [(exactField (keyPath v), attrs e)]"
    by auto
next
  from updateError_produces [of v s w "Many es"]
  show "\<exists>nextRoot. run_produces v s w (updateError v (Many es) s w) nextRoot \<and>
      map content (priv_externalErrorList nextRoot) =
        map (\<lambda>e. (exactField (keyPath v), attrs e)) es"
    by auto
next
  fix v1 w1
  assume first: "updateError v arg s w = (Inr v1, w1)"
  from updateError_produces [of v s w arg] obtain r1 where
    p1: "run_produces v s w (updateError v arg s w) r1"
    and c1: "map content (priv_externalErrorList r1) =
       (case arg of
          One e \<Rightarrow> [(exactField (keyPath v), attrs e)]
        | Many es \<Rightarrow> map (\<lambda>e. (exactField (keyPath v), attrs e)) es)"
    by blast
  from p1 first have v1: "root v1 = r1" "keyPath v1 = keyPath v"
    by (simp_all add: run_produces_def)
  from updateError_produces [of v1 s' w1 arg] obtain r2 where
    p2: "run_produces v1 s' w1 (updateError v1 arg s' w1) r2"
    and c2: "map content (priv_externalErrorList r2) =
       (case arg of
          One e \<Rightarrow> [(exactField (keyPath v1), attrs e)]
        | Many es \<Rightarrow> map (\<lambda>e. (exactField (keyPath v1), attrs e)) es)"
    by blast
  from c1 c2 v1 have "map content (priv_externalErrorList r2) =
      map content (priv_externalErrorList (root v1))" by (simp split: error_arg.splits)
  with p2 show "\<exists>nextRoot. run_produces v1 s' w1 (updateError v1 arg s' w1) nextRoot \<and>
      map content (priv_externalErrorList nextRoot) =
        map content (priv_externalErrorList (root v1))" by blast
qed

theorem updateError_replaces_witness:
  "\<exists>v1 w1 v2 w2.
     updateError demo_branch (Many [e_copy, e_ab]) False demo_world = (Inr v1, w1) \<and>
     updateError v1 (Many [e_copy, e_ab]) False w1 = (Inr v2, w2) \<and>
     map content (priv_externalErrorList (root v1)) = [(''data.a'', ''taken''), (''data.a'', ''other'')] \<and>
     map content (priv_externalErrorList (root v2)) = map content (priv_externalErrorList (root v1))"
proof -
  obtain v1 w1 where first: "updateError demo_branch (Many [e_copy, e_ab]) False demo_world = (Inr v1, w1)"
    and c1: "map content (priv_externalErrorList (root v1)) =
      [(''data.a'', ''taken''), (''data.a'', ''other'')]"
    and t1: "onChange_throws w1 = (\<lambda>cb r kp. None)"
    by (simp add: updateError_Many_eq notify_reselect_def Let_def demo_defs content_def
        dataField_def)
  from updateError_replaces [of demo_branch False demo_world _ _ "Many [e_copy, e_ab]" False]
    first
  obtain r2 where p2: "run_produces v1 False w1 (updateError v1 (Many [e_copy, e_ab]) False w1) r2"
    and c2: "map content (priv_externalErrorList r2) = map content (priv_externalErrorList (root v1))"
    by blast
  from run_produces_returned [OF p2] t1
  obtain v2 where "fst (updateError v1 (Many [e_copy, e_ab]) False w1) = Inr v2" "root v2 = r2"
    by auto
  with c2 have second: "updateError v1 (Many [e_copy, e_ab]) False w1 =
      (Inr v2, snd (updateError v1 (Many [e_copy, e_ab]) False w1))"
    and same: "map content (priv_externalErrorList (root v2)) =
      map content (priv_externalErrorList (root v1))"
    by (simp_all add: prod_eq_iff)
  from first second c1 same show ?thesis
    by (intro exI [of _ v1] exI [of _ w1] exI [of _ v2]
        exI [of _ "snd (updateError v1 (Many [e_copy, e_ab]) False w1)"]) simp
qed

text \<open>
  C9. When the \<open>onChange\<close> callback of the root returns, suppression does not influence
  the produced state: for \<open>update\<close>, \<open>updateParams\<close>, \<open>updateError\<close>, \<open>addError\<close> and
  \<open>removeError\<close> on any input, the returned Value (its key path and all fields of its
  root) is the same whether notifications are suppressed, by the argument or by the
  ambient flag, or not; only the calls of \<open>onChange\<close> differ.
\<close>

theorem suppression_only_silences:
  assumes "\<forall>r. onChange_throws w (onChange (root v)) r (keyPath v) = None"
  shows
  "silenced_only (update upd v x) w \<and>
   silenced_only (updateParams v ps) w \<and>
   silenced_only (updateError v arg) w \<and>
   silenced_only (addError v e) w \<and>
   silenced_only (removeError v e) w"
proof -
  have tail: "notify_reselect v r s (w\<lparr>suppressUpdateContextual := b, next_addr := n\<rparr>) =
      (Inr (if keyPath v = [] then ValueRoot r else ValueBranch n r (keyPath v)),
       w\<lparr>suppressUpdateContextual := b,
         next_addr := (if keyPath v = [] then n else Suc n),
         onChange_calls :=
           (if \<not> s \<and> \<not> b then onChange_calls w @ [(onChange (root v), r, keyPath v)]
            else onChange_calls w)\<rparr>)" for r s b n
    using assms by (simp add: notify_reselect_returns)
  have u: "silenced_only (update upd v x) w"
    by (simp add: silenced_only_def Let_def update_eq tail split: sum.splits)
  have p: "silenced_only (updateParams v ps) w"
    by (simp add: silenced_only_def Let_def updateParams_eq tail)
  have ue: "silenced_only (updateError v arg) w"
    by (cases arg)
      (simp_all add: silenced_only_def Let_def updateError_One_eq updateError_Many_eq tail)
  have ae: "silenced_only (addError v e) w"
    by (simp add: silenced_only_def Let_def addError_eq tail)
  have re: "silenced_only (removeError v e) w"
    by (simp add: silenced_only_def Let_def removeError_eq tail)
  from u p ue ae re show ?thesis by blast
qed

theorem suppression_only_silences_witness:
  "silenced_only (update demo_update demo_branch (Num 2)) demo_world \<and>
   silenced_only (updateParams demo_branch [''k'' \<mapsto> 1]) demo_world \<and>
   silenced_only (updateError demo_branch (Many [e_copy])) demo_world \<and>
   silenced_only (addError demo_branch e_copy) demo_world \<and>
   silenced_only (removeError demo_branch e_taken) demo_world \<and>
   fst (addError demo_branch e_copy True demo_world) = fst (addError demo_branch e_copy False demo_world)"
proof -
  have ret: "\<forall>r. onChange_throws demo_world (onChange (root demo_branch)) r (keyPath demo_branch) = None"
    by (simp add: demo_world_def)
  have same: "fst (addError demo_branch e_copy True demo_world) =
      fst (addError demo_branch e_copy False demo_world)"
    by (simp add: addError_eq notify_reselect_def Let_def demo_world_def)
  from suppression_only_silences [OF ret] same show ?thesis by blast
qed

text \<open>
  Without that condition the claim fails: with a callback that throws, the unsuppressed
  \<open>addError\<close> throws and the suppressed one returns a Value.
\<close>

theorem suppression_changes_result_counterexample:
  "fst (addError demo_branch e_copy False throwing_world) = Inl ''callback failed'' \<and>
   (\<exists>v'. fst (addError demo_branch e_copy True throwing_world) = Inr v') \<and>
   \<not> silenced_only (addError demo_branch e_copy) throwing_world"
proof -
  have loud: "fst (addError demo_branch e_copy False throwing_world) = Inl ''callback failed''"
    by (simp add: addError_eq notify_reselect_def Let_def throwing_world_def demo_world_def)
  have quiet: "\<exists>v'. fst (addError demo_branch e_copy True throwing_world) = Inr v'"
    by (simp add: addError_eq notify_reselect_def Let_def throwing_world_def demo_world_def)
  have flag: "throwing_world\<lparr>suppressUpdateContextual := False\<rparr> = throwing_world"
    by (simp add: throwing_world_def demo_world_def)
  have "\<not> silenced_only (addError demo_branch e_copy) throwing_world"
  proof
    assume "silenced_only (addError demo_branch e_copy) throwing_world"
    then have "fst (addError demo_branch e_copy True (throwing_world\<lparr>suppressUpdateContextual := False\<rparr>)) =
        fst (addError demo_branch e_copy False (throwing_world\<lparr>suppressUpdateContextual := False\<rparr>))"
      unfolding silenced_only_def Let_def by blast
    with loud quiet flag show False by auto
  qed
  with loud quiet show ?thesis by blast
qed

text \<open>
  C10. \<open>updateError\<close> with the empty list clears the external errors: it produces a root
  with the empty external error list whose validation error list, document, schema and
  params are those of the root of the receiver, and it returns a Value on that root at
  the key path of the receiver whenever the notification is suppressed or the callback
  returns; it throws only the exception of the callback.
\<close>

theorem updateError_empty_clears:
  "\<exists>nextRoot.
     run_produces v s w (updateError v (Many []) s w) nextRoot \<and>
     priv_externalErrorList nextRoot = [] \<and>
     priv_errorList nextRoot = priv_errorList (root v) \<and>
     value_doc nextRoot = value_doc (root v) \<and>
     schema nextRoot = schema (root v) \<and>
     params nextRoot = params (root v) \<and>
     (s \<or> suppressUpdateContextual w \<or>
      onChange_throws w (onChange (root v)) nextRoot (keyPath v) = None \<longrightarrow>
        (\<exists>v'. fst (updateError v (Many []) s w) = Inr v' \<and>
           root v' = nextRoot \<and> keyPath v' = keyPath v))"
proof -
  from updateError_produces [of v s w "Many []"] obtain r where
    p: "run_produces v s w (updateError v (Many []) s w) r"
    and fr: "priv_externalErrorList r = []" "priv_errorList r = priv_errorList (root v)"
      "value_doc r = value_doc (root v)" "schema r = schema (root v)"
      "params r = params (root v)"
    by auto
  have ret: "s \<or> suppressUpdateContextual w \<or>
      onChange_throws w (onChange (root v)) r (keyPath v) = None \<longrightarrow>
        (\<exists>v'. fst (updateError v (Many []) s w) = Inr v' \<and> root v' = r \<and> keyPath v' = keyPath v)"
    using run_produces_returned [OF p] by blast
  show ?thesis
    by (rule exI [of _ r]) (intro conjI p fr ret)
qed

text \<open>
  On the small form: suppressed, the call returns also with a callback that throws;
  unsuppressed, it returns with a callback that returns.
\<close>

theorem updateError_empty_clears_witness:
  "(\<exists>v'. fst (updateError demo_branch (Many []) True throwing_world) = Inr v' \<and>
      priv_externalErrorList (root v') = [] \<and> keyPath v' = [Name ''a'']) \<and>
   (\<exists>v'. fst (updateError demo_branch (Many []) False demo_world) = Inr v' \<and>
      priv_externalErrorList (root v') = [] \<and> keyPath v' = [Name ''a''])"
proof -
  have kp: "keyPath demo_branch = [Name ''a'']" by (simp add: demo_branch_def)
  have ret: "onChange_throws demo_world (onChange (root demo_branch)) r (keyPath demo_branch) = None"
    for r by (simp add: demo_world_def)
  from updateError_empty_clears [of demo_branch True throwing_world]
  have a: "\<exists>v'. fst (updateError demo_branch (Many []) True throwing_world) = Inr v' \<and>
      priv_externalErrorList (root v') = [] \<and> keyPath v' = [Name ''a'']"
    by (auto simp add: kp)
  from updateError_empty_clears [of demo_branch False demo_world] ret
  have b: "\<exists>v'. fst (updateError demo_branch (Many []) False demo_world) = Inr v' \<and>
      priv_externalErrorList (root v') = [] \<and> keyPath v' = [Name ''a'']"
    by (auto simp add: kp)
  from a b show ?thesis by blast
qed

text \<open>
  The claim as stated says that the call never raises; unsuppressed and with a callback
  that throws, it raises after the callback has received the new root.
\<close>

theorem updateError_empty_raises_counterexample:
  "updateError demo_branch (Many []) False throwing_world =
     (Inl ''callback failed'',
      throwing_world\<lparr>next_addr := 11,
        onChange_calls :=
          [(0, demo_root\<lparr>addr := 10, priv_externalErrorList := []\<rparr>, [Name ''a''])]\<rparr>)"
  by (simp add: updateError_Many_eq notify_reselect_def Let_def throwing_world_def demo_world_def
      demo_branch_def demo_root_def)

end
